theory Spec2Isabelle
  imports Main "HOL-Library.AList" "HOL-Library.Extended_Nat" "HOL-Library.Sublist"
begin

section \<open>The streaming client of sdk/core/lighter-ws.js\<close>

text \<open>
  The class \<open>LighterWS\<close> is embedded as a record of its fields and one function per method
  or socket handler, each taking the client and returning the updated client. JavaScript
  runs every method and handler to completion on one event loop, so an interleaving of
  the program is a sequence of such calls.

  What lies outside the class is made explicit:
  \<^item> the transport: \<open>wire\<close> lists the frames that \<open>ws.send\<close> accepted, in order;
    \<open>sendThrows\<close> says for the n-th call of \<open>ws.send\<close> whether it throws, and
    \<open>sendCount\<close> counts the calls made so far;
  \<^item> timers: \<open>heartbeatInterval\<close> is the handle of \<open>setInterval\<close>;
    \<open>pendingReconnects\<close> lists the delays of the \<open>setTimeout\<close> calls of
    \<open>attemptReconnect\<close> that have not fired yet (the source keeps no handle of them);
  \<^item> the clock: every function that reads \<open>Date.now()\<close> takes the time as an argument;
  \<^item> the caller's code: a handler is an identifier, and \<open>delivered\<close> lists the calls
    made to handlers with the message passed; \<open>refreshCalls\<close> counts the calls of
    \<open>authRefreshCallback\<close> and \<open>socketsOpened\<close> the sockets created by \<open>connect\<close>.
\<close>

subsection \<open>Data\<close>

type_synonym handler = nat

text \<open>Outbound messages: the object literals passed to \<open>send\<close>.\<close>

datatype frame =
    Auth string
  | Subscribe string "string option"
  | Unsubscribe string
  | Ping
  | Pong

text \<open>
  The result of \<open>JSON.parse\<close> on an inbound frame, as far as \<open>handleMessage\<close> reads it:
  the fields \<open>type\<close> and \<open>channel\<close> (absent or a string) and whether \<open>error\<close> is truthy.
\<close>

datatype inbound =
    Unparseable
  | NotObject
  | Message (mtype: "string option") (mchannel: "string option") (merror: bool)

text \<open>The second argument of \<open>subscribe\<close> and \<open>unsubscribe\<close>.\<close>

datatype marketId = Undefined | Null | Str string | Num nat

text \<open>The socket object held in \<open>this.ws\<close>, with whether \<open>close()\<close> has been called on it.\<close>

datatype socket = WebSocket (closeCalled: bool)

text \<open>What awaiting \<open>authRefreshCallback()\<close> gives.\<close>

datatype refreshOutcome = Resolved "string option" | Rejected

record LighterWS =
  wsUrl :: string
  authToken :: "string option"
  authRefreshCallback :: bool
  ws :: "socket option"
  subscriptions :: "(string \<times> handler list) list"
  reconnectAttempts :: enat
  maxReconnectAttempts :: enat
  reconnectDelay :: nat
  maxReconnectDelay :: nat
  isConnected :: bool
  shouldReconnect :: bool
  isAuthenticated :: bool
  messageQueue :: "frame list"
  maxQueueSize :: nat
  heartbeatInterval :: "nat option"
  heartbeatIntervalMs :: nat
  lastPongTime :: int
  wire :: "frame list"
  sendThrows :: "nat \<Rightarrow> bool"
  sendCount :: nat
  pendingReconnects :: "nat list"
  delivered :: "(handler \<times> inbound) list"
  refreshCalls :: nat
  socketsOpened :: nat

text \<open>JavaScript truthiness of a value that is null, undefined or a string.\<close>

fun truthy :: "string option \<Rightarrow> bool" where
  "truthy None = False"
| "truthy (Some t) = (t \<noteq> [])"

text \<open>The constructor.\<close>

definition LighterWS_new :: "string \<Rightarrow> string option \<Rightarrow> bool \<Rightarrow> (nat \<Rightarrow> bool) \<Rightarrow> int \<Rightarrow> LighterWS" where
  "LighterWS_new url token refresh throws now =
     \<lparr> wsUrl = url, authToken = token, authRefreshCallback = refresh, ws = None,
       subscriptions = [], reconnectAttempts = 0, maxReconnectAttempts = \<infinity>,
       reconnectDelay = 1000, maxReconnectDelay = 60000, isConnected = False,
       shouldReconnect = True, isAuthenticated = False, messageQueue = [],
       maxQueueSize = 100, heartbeatInterval = None, heartbeatIntervalMs = 30000,
       lastPongTime = now, wire = [], sendThrows = throws, sendCount = 0,
       pendingReconnects = [], delivered = [], refreshCalls = 0, socketsOpened = 0 \<rparr>"

subsection \<open>The outbound queue: send and flushMessageQueue\<close>

text \<open>
  \<open>send\<close>: while not connected the message is queued, after a \<open>shift\<close> when the queue
  is full. While connected it goes to \<open>ws.send\<close>; when that throws (also the TypeError of
  a null \<open>ws\<close>) the message is queued only if the queue is below its limit.
\<close>

definition send :: "frame \<Rightarrow> LighterWS \<Rightarrow> LighterWS" where
  "send message s =
     (if \<not> isConnected s then
        (if length (messageQueue s) < maxQueueSize s
         then s\<lparr>messageQueue := messageQueue s @ [message]\<rparr>
         else s\<lparr>messageQueue := tl (messageQueue s) @ [message]\<rparr>)
      else if ws s = None then
        (if length (messageQueue s) < maxQueueSize s
         then s\<lparr>messageQueue := messageQueue s @ [message]\<rparr>
         else s)
      else if sendThrows s (sendCount s) then
        (if length (messageQueue s) < maxQueueSize s
         then s\<lparr>messageQueue := messageQueue s @ [message], sendCount := Suc (sendCount s)\<rparr>
         else s\<lparr>sendCount := Suc (sendCount s)\<rparr>)
      else s\<lparr>wire := wire s @ [message], sendCount := Suc (sendCount s)\<rparr>)"

text \<open>
  \<open>flushMessageQueue\<close>: \<open>while (queue.length > 0) { message = queue.shift(); send(message) }\<close>.
  The loop need not end (a send that throws puts the message back), so the result is
  an option and \<open>None\<close> stands for a loop that never returns.
\<close>

partial_function (option) flushMessageQueue :: "LighterWS \<Rightarrow> LighterWS option" where
  "flushMessageQueue s =
     (if length (messageQueue s) > 0
      then flushMessageQueue (send (hd (messageQueue s)) (s\<lparr>messageQueue := tl (messageQueue s)\<rparr>))
      else Some s)"

subsection \<open>Timers and the connection life cycle\<close>

definition stopHeartbeat :: "LighterWS \<Rightarrow> LighterWS" where
  "stopHeartbeat s = (if heartbeatInterval s \<noteq> None then s\<lparr>heartbeatInterval := None\<rparr> else s)"

definition startHeartbeat :: "LighterWS \<Rightarrow> LighterWS" where
  "startHeartbeat s = (stopHeartbeat s)\<lparr>heartbeatInterval := Some (heartbeatIntervalMs s)\<rparr>"

text \<open>
  The body of the interval callback. \<open>this.ws.close()\<close> on a null \<open>ws\<close> is a TypeError
  that nothing catches: the result \<open>None\<close>.
\<close>

definition heartbeatTick :: "int \<Rightarrow> LighterWS \<Rightarrow> LighterWS option" where
  "heartbeatTick now s =
     (if isConnected s then
        (let timeSinceLastPong = now - lastPongTime s in
         if timeSinceLastPong > 90000 then
           (case ws s of None \<Rightarrow> None | Some sock \<Rightarrow> Some (s\<lparr>ws := Some (WebSocket True)\<rparr>))
         else Some (send Ping s))
      else Some s)"

text \<open>
  \<open>connect\<close> up to the creation of the socket, with the outcome of the awaited refresh
  callback as an argument. The handlers it installs are the functions \<open>onopen\<close>,
  \<open>onclose\<close> and \<open>handleMessage\<close> below; \<open>onerror\<close> only rejects the promise.
\<close>

definition connect :: "refreshOutcome \<Rightarrow> LighterWS \<Rightarrow> LighterWS" where
  "connect r s =
     (let s1 = s\<lparr>shouldReconnect := True\<rparr>;
          s2 = (if reconnectAttempts s1 > 0 \<and> authRefreshCallback s1 then
                  (case r of
                     Resolved t \<Rightarrow> s1\<lparr>authToken := t, refreshCalls := Suc (refreshCalls s1)\<rparr>
                   | Rejected \<Rightarrow> s1\<lparr>refreshCalls := Suc (refreshCalls s1)\<rparr>)
                else s1)
      in s2\<lparr>ws := Some (WebSocket False), socketsOpened := Suc (socketsOpened s2)\<rparr>)"

definition backoffDelay :: "LighterWS \<Rightarrow> nat \<Rightarrow> nat" where
  "backoffDelay s attempts = min (reconnectDelay s * 2 ^ (attempts - 1)) (maxReconnectDelay s)"

text \<open>
  \<open>attemptReconnect\<close>. The counter is a number or Infinity; past the guard it is below
  \<open>maxReconnectAttempts\<close> and therefore a number. The delays are natural numbers: the
  doubles of the source are exact on them, and \<open>Math.min\<close> with the cap gives the same
  value when the power overflows to Infinity.
\<close>

definition attemptReconnect :: "LighterWS \<Rightarrow> LighterWS" where
  "attemptReconnect s =
     (if \<not> shouldReconnect s \<or> reconnectAttempts s \<ge> maxReconnectAttempts s then s
      else (case reconnectAttempts s of
              enat n \<Rightarrow>
                (let s1 = s\<lparr>reconnectAttempts := enat (Suc n)\<rparr>;
                     delay = backoffDelay s1 (Suc n)
                 in s1\<lparr>pendingReconnects := pendingReconnects s1 @ [delay]\<rparr>)
            | \<infinity> \<Rightarrow> s))"

text \<open>The callback of the i-th pending \<open>setTimeout\<close> of \<open>attemptReconnect\<close> fires.\<close>

definition reconnectTimerFire :: "nat \<Rightarrow> refreshOutcome \<Rightarrow> LighterWS \<Rightarrow> LighterWS" where
  "reconnectTimerFire i r s =
     (if i < length (pendingReconnects s) then
        (let s1 = s\<lparr>pendingReconnects := take i (pendingReconnects s) @ drop (Suc i) (pendingReconnects s)\<rparr>
         in if shouldReconnect s1 then connect r s1 else s1)
      else s)"

definition disconnect :: "LighterWS \<Rightarrow> LighterWS" where
  "disconnect s =
     (let s1 = s\<lparr>isConnected := False, shouldReconnect := False, isAuthenticated := False,
                 reconnectAttempts := maxReconnectAttempts s\<rparr>;
          s2 = stopHeartbeat s1;
          s3 = s2\<lparr>subscriptions := [], messageQueue := []\<rparr>
      in (if ws s3 \<noteq> None then s3\<lparr>ws := None\<rparr> else s3))"

definition onclose :: "LighterWS \<Rightarrow> LighterWS" where
  "onclose s =
     (let s1 = stopHeartbeat (s\<lparr>isConnected := False, isAuthenticated := False\<rparr>)
      in if shouldReconnect s1 then attemptReconnect s1 else s1)"

subsection \<open>The registry: subscribe, unsubscribe, resubscribeAll\<close>

text \<open>
  \<open>subscriptions\<close> is a JavaScript Map from the channel string to the array of callbacks.
  It is kept as an association list in insertion order: \<open>map_of\<close> is \<open>get\<close>,
  \<open>AList.update\<close> is \<open>set\<close> (in place for a key that exists, at the end for a new one)
  and \<open>AList.delete\<close> is \<open>delete\<close>.
\<close>

fun digits :: "nat \<Rightarrow> string" where
  "digits n =
     (if n < 10 then [''0123456789'' ! n]
      else digits (n div 10) @ [''0123456789'' ! (n mod 10)])"

declare digits.simps [simp del]

text \<open>The template literal \<open>`${marketId}`\<close>.\<close>

fun toString :: "marketId \<Rightarrow> string" where
  "toString Undefined = ''undefined''"
| "toString Null = ''null''"
| "toString (Str t) = t"
| "toString (Num n) = digits n"

definition subscribe :: "string \<Rightarrow> marketId \<Rightarrow> handler \<Rightarrow> string option \<Rightarrow> LighterWS \<Rightarrow> LighterWS" where
  "subscribe channel mid callback auth s =
     (if mid = Undefined \<or> mid = Null \<or> mid = Str [] then s
      else
        (let subscriptionChannel = channel @ ''/'' @ toString mid;
             storageKey = subscriptionChannel;
             subs1 = (if map_of (subscriptions s) storageKey = None
                      then AList.update storageKey [] (subscriptions s)
                      else subscriptions s);
             subs2 = (case map_of subs1 storageKey of
                        None \<Rightarrow> subs1
                      | Some cbs \<Rightarrow> AList.update storageKey (cbs @ [callback]) subs1);
             subMessage = Subscribe subscriptionChannel (if truthy auth then auth else None)
         in send subMessage (s\<lparr>subscriptions := subs2\<rparr>)))"

definition unsubscribe :: "string \<Rightarrow> marketId \<Rightarrow> LighterWS \<Rightarrow> LighterWS" where
  "unsubscribe channel mid s =
     (let subscriptionChannel = channel @ ''/'' @ toString mid
      in send (Unsubscribe subscriptionChannel)
           (s\<lparr>subscriptions := AList.delete subscriptionChannel (subscriptions s)\<rparr>))"

text \<open>\<open>resubscribeAll\<close>: one \<open>send\<close> per entry of the Map, in its iteration order.\<close>

fun resubscribeEntries :: "(string \<times> handler list) list \<Rightarrow> LighterWS \<Rightarrow> LighterWS" where
  "resubscribeEntries [] s = s"
| "resubscribeEntries ((channelKey, callbacks) # es) s =
     resubscribeEntries es (send (Subscribe channelKey None) s)"

definition resubscribeAll :: "LighterWS \<Rightarrow> LighterWS" where
  "resubscribeAll s = resubscribeEntries (subscriptions s) s"

text \<open>The \<open>onopen\<close> handler installed by \<open>connect\<close>.\<close>

definition onopen :: "int \<Rightarrow> LighterWS \<Rightarrow> LighterWS option" where
  "onopen now s =
     (let s1 = s\<lparr>isConnected := True, reconnectAttempts := 0, lastPongTime := now\<rparr>;
          s2 = (if truthy (authToken s1) then send (Auth (the (authToken s1))) s1 else s1);
          s3 = (if length (subscriptions s2) > 0 then resubscribeAll s2 else s2)
      in map_option startHeartbeat (flushMessageQueue s3))"

subsection \<open>Inbound messages: handleMessage and _routeToCallbacks\<close>

text \<open>\<open>String.prototype.replace\<close> with a string pattern: the first occurrence only.\<close>

fun replace :: "char \<Rightarrow> char \<Rightarrow> string \<Rightarrow> string" where
  "replace a b [] = []"
| "replace a b (c # cs) = (if c = a then b # cs else c # replace a b cs)"

text \<open>
  The callbacks of the entry are called in order, each inside its own try/catch; the
  calls are recorded in \<open>delivered\<close>.
\<close>

definition routeToCallbacks :: "string \<Rightarrow> inbound \<Rightarrow> LighterWS \<Rightarrow> LighterWS" where
  "routeToCallbacks serverChannel message s =
     (let callbacks0 = map_of (subscriptions s) serverChannel;
          callbacks = (if callbacks0 = None \<and> CHR '':'' \<in> set serverChannel
                       then map_of (subscriptions s) (replace CHR '':'' CHR ''/'' serverChannel)
                       else callbacks0)
      in case callbacks of
           None \<Rightarrow> s
         | Some cbs \<Rightarrow>
             (if length cbs > 0
              then s\<lparr>delivered := delivered s @ map (\<lambda>cb. (cb, message)) cbs\<rparr>
              else s))"

definition handleMessage :: "int \<Rightarrow> inbound \<Rightarrow> LighterWS \<Rightarrow> LighterWS" where
  "handleMessage now data s =
     (case data of
        Unparseable \<Rightarrow> s
      | NotObject \<Rightarrow> s
      | Message messageType channel err \<Rightarrow>
          (if messageType = Some ''ping'' then (send Pong s)\<lparr>lastPongTime := now\<rparr>
           else if messageType = Some ''pong'' then s\<lparr>lastPongTime := now\<rparr>
           else if messageType = Some ''connected'' then s
           else if messageType = Some ''auth_success'' \<or> messageType = Some ''authenticated''
             then s\<lparr>isAuthenticated := True\<rparr>
           else if messageType = Some ''auth_failed'' \<or> messageType = Some ''auth_error''
             then s\<lparr>isAuthenticated := False\<rparr>
           else if truthy messageType \<and> prefix ''subscribed/'' (the messageType) then
             (if truthy channel then routeToCallbacks (the channel) data s else s)
           else if truthy messageType \<and> prefix ''update/'' (the messageType) then
             (if truthy channel then routeToCallbacks (the channel) data s else s)
           else if err then s
           else if truthy channel then routeToCallbacks (the channel) data s
           else s))"

subsection \<open>Events\<close>

text \<open>
  One step of the event loop: a call of the public interface, a socket handler or a timer
  callback. The interval callback runs only while the interval is set.
\<close>

datatype event =
    EvConnect refreshOutcome
  | EvDisconnect
  | EvOpen int
  | EvClose
  | EvError
  | EvMessage int inbound
  | EvReconnectTimer nat refreshOutcome
  | EvHeartbeat int
  | EvSend frame
  | EvSubscribe string marketId handler "string option"
  | EvUnsubscribe string marketId

fun step :: "event \<Rightarrow> LighterWS \<Rightarrow> LighterWS option" where
  "step (EvConnect r) s = Some (connect r s)"
| "step EvDisconnect s = Some (disconnect s)"
| "step (EvOpen now) s = onopen now s"
| "step EvClose s = Some (onclose s)"
| "step EvError s = Some s"
| "step (EvMessage now m) s = Some (handleMessage now m s)"
| "step (EvReconnectTimer i r) s = Some (reconnectTimerFire i r s)"
| "step (EvHeartbeat now) s = (if heartbeatInterval s = None then Some s else heartbeatTick now s)"
| "step (EvSend m) s = Some (send m s)"
| "step (EvSubscribe c mid cb a) s = Some (subscribe c mid cb a s)"
| "step (EvUnsubscribe c mid) s = Some (unsubscribe c mid s)"

fun run :: "event list \<Rightarrow> LighterWS \<Rightarrow> LighterWS option" where
  "run [] s = Some s"
| "run (e # es) s = (case step e s of None \<Rightarrow> None | Some s' \<Rightarrow> run es s')"



subsection \<open>Concrete clients\<close>

text \<open>Transports: one that accepts every frame, one that refuses every frame, one that
  refuses the first frame only.\<close>

definition neverThrows :: "nat \<Rightarrow> bool" where
  "neverThrows n = False"

definition alwaysThrows :: "nat \<Rightarrow> bool" where
  "alwaysThrows n = True"

definition throwsFirst :: "nat \<Rightarrow> bool" where
  "throwsFirst n = (n = 0)"

definition fresh :: LighterWS where
  "fresh = LighterWS_new ''wss://host/stream'' None False neverThrows 0"

definition withToken :: LighterWS where
  "withToken = LighterWS_new ''wss://host/stream'' (Some ''tok'') True neverThrows 0"

text \<open>A subscription made before the first connect: the entry is stored and its frame queued.\<close>

definition queuedBeforeOpen :: LighterWS where
  "queuedBeforeOpen = connect Rejected (subscribe ''order_book'' (Str ''1'') 7 None fresh)"

definition twoKeys :: LighterWS where
  "twoKeys = connect Rejected
     (subscribe ''trade'' (Num 2) 9 None
       (subscribe ''order_book'' (Str ''1'') 8 None
         (subscribe ''order_book'' (Str ''1'') 7 None withToken)))"

text \<open>The fresh client after \<open>connect\<close> and \<open>onopen\<close> at time 0.\<close>

definition opened :: LighterWS where
  "opened = (connect Rejected fresh)\<lparr>isConnected := True, heartbeatInterval := Some 30000\<rparr>"

definition subscribedOnce :: LighterWS where
  "subscribedOnce = subscribe ''order_book'' (Str ''1'') 1 None opened"

text \<open>An open client whose transport refuses every frame, and the same client after a
  hundred pings.\<close>

definition refusingOpen :: LighterWS where
  "refusingOpen = opened\<lparr>sendThrows := alwaysThrows\<rparr>"

definition fullWhileOpen :: LighterWS where
  "fullWhileOpen = fold send (replicate 100 Ping) refusingOpen"

text \<open>A client that was never connected, after a hundred sends.\<close>

definition fullWhileClosed :: LighterWS where
  "fullWhileClosed = fold send (Auth ''a'' # replicate 99 Ping) fresh"


text \<open>Two frames queued while disconnected on a transport that refuses its first frame; and
  that client at the point where \<open>onopen\<close> calls \<open>flushMessageQueue\<close>.\<close>

definition twoQueued :: LighterWS where
  "twoQueued = connect Rejected
     (send Ping (send (Unsubscribe ''trade/2'')
       (LighterWS_new ''wss://host/stream'' None False throwsFirst 0)))"

definition refusedOnce :: LighterWS where
  "refusedOnce = twoQueued\<lparr>isConnected := True, reconnectAttempts := 0, lastPongTime := 5\<rparr>"

text \<open>A subscription made with an auth token on an open client without a token of its own,
  then a close of the socket, the reconnect timer and the second open.\<close>

definition authReplay :: "LighterWS option" where
  "authReplay = run [EvConnect Rejected, EvOpen 0,
     EvSubscribe ''account_all_orders'' (Num 42) 3 (Some ''tok''),
     EvClose, EvReconnectTimer 0 Rejected, EvOpen 9] fresh"


section \<open>Properties\<close>

subsection \<open>Auxiliary facts\<close>

lemma flush_Nil: "messageQueue s = [] \<Longrightarrow> flushMessageQueue s = Some s"
  by (subst flushMessageQueue.simps) simp

lemma flush_Cons:
  "messageQueue s = m # q \<Longrightarrow>
   flushMessageQueue s = flushMessageQueue (send m (s\<lparr>messageQueue := q\<rparr>))"
  by (subst flushMessageQueue.simps) simp

lemmas eval_defs = connect_def subscribe_def unsubscribe_def send_def onopen_def
  resubscribeAll_def startHeartbeat_def stopHeartbeat_def flush_Nil flush_Cons Let_def
  digits.simps LighterWS_new_def

lemma send_keeps:
  "subscriptions (send m s) = subscriptions s"
  "maxQueueSize (send m s) = maxQueueSize s"
  "isConnected (send m s) = isConnected s"
  "ws (send m s) = ws s"
  "sendThrows (send m s) = sendThrows s"
  "shouldReconnect (send m s) = shouldReconnect s"
  "reconnectAttempts (send m s) = reconnectAttempts s"
  "maxReconnectAttempts (send m s) = maxReconnectAttempts s"
  "socketsOpened (send m s) = socketsOpened s"
  "pendingReconnects (send m s) = pendingReconnects s"
  "heartbeatInterval (send m s) = heartbeatInterval s"
  "refreshCalls (send m s) = refreshCalls s"
  "authToken (send m s) = authToken s"
  "delivered (send m s) = delivered s"
  "isAuthenticated (send m s) = isAuthenticated s"
  by (simp_all add: send_def)

lemma send_accepted:
  "isConnected s \<Longrightarrow> ws s \<noteq> None \<Longrightarrow> \<not> sendThrows s (sendCount s) \<Longrightarrow>
   send m s = s\<lparr>wire := wire s @ [m], sendCount := Suc (sendCount s)\<rparr>"
  by (simp add: send_def)

text \<open>On a transport that accepts everything, replaying and flushing only extend the wire.\<close>

lemma resubscribeEntries_accepted:
  "isConnected s \<Longrightarrow> ws s \<noteq> None \<Longrightarrow> \<forall>n\<ge>sendCount s. \<not> sendThrows s n \<Longrightarrow>
   resubscribeEntries es s =
     s\<lparr>wire := wire s @ map (\<lambda>k. Subscribe k None) (map fst es),
       sendCount := sendCount s + length es\<rparr>"
proof (induction es arbitrary: s)
  case Nil
  then show ?case by simp
next
  case (Cons e es)
  obtain k cbs where e: "e = (k, cbs)" by (cases e)
  let ?s1 = "s\<lparr>wire := wire s @ [Subscribe k None], sendCount := Suc (sendCount s)\<rparr>"
  have s1: "send (Subscribe k None) s = ?s1"
    using Cons.prems by (simp add: send_accepted)
  have "resubscribeEntries es ?s1 =
     ?s1\<lparr>wire := wire ?s1 @ map (\<lambda>k. Subscribe k None) (map fst es),
       sendCount := sendCount ?s1 + length es\<rparr>"
    using Cons.prems by (intro Cons.IH) auto
  then show ?case by (simp add: e s1)
qed

lemma flushMessageQueue_accepted:
  "messageQueue s = q \<Longrightarrow> isConnected s \<Longrightarrow> ws s \<noteq> None \<Longrightarrow>
   \<forall>n\<ge>sendCount s. \<not> sendThrows s n \<Longrightarrow>
   flushMessageQueue s =
     Some (s\<lparr>messageQueue := [], wire := wire s @ q, sendCount := sendCount s + length q\<rparr>)"
proof (induction q arbitrary: s)
  case Nil
  then show ?case by (simp add: flush_Nil)
next
  case (Cons m q)
  let ?s1 = "s\<lparr>messageQueue := q, wire := wire s @ [m], sendCount := Suc (sendCount s)\<rparr>"
  have s1: "send m (s\<lparr>messageQueue := q\<rparr>) = ?s1"
    using Cons.prems by (simp add: send_accepted)
  have "flushMessageQueue ?s1 =
     Some (?s1\<lparr>messageQueue := [], wire := wire ?s1 @ q, sendCount := sendCount ?s1 + length q\<rparr>)"
    using Cons.prems by (intro Cons.IH) auto
  then show ?case using Cons.prems(1) by (simp add: flush_Cons [OF Cons.prems(1)] s1)
qed







text \<open>The concrete clients are states the program reaches.\<close>

lemma opened_reached: "onopen 0 (connect Rejected fresh) = Some opened"
  by (simp add: opened_def fresh_def eval_defs)

lemma fold_send_refused:
  "isConnected s \<Longrightarrow> ws s \<noteq> None \<Longrightarrow> \<forall>n. sendThrows s n \<Longrightarrow>
   length (messageQueue s) + k \<le> maxQueueSize s \<Longrightarrow>
   fold send (replicate k m) s =
     s\<lparr>messageQueue := messageQueue s @ replicate k m, sendCount := sendCount s + k\<rparr>"
proof (induction k arbitrary: s)
  case 0
  then show ?case by simp
next
  case (Suc k)
  let ?s1 = "s\<lparr>messageQueue := messageQueue s @ [m], sendCount := Suc (sendCount s)\<rparr>"
  have s1: "send m s = ?s1" using Suc.prems by (simp add: send_def)
  have "fold send (replicate k m) ?s1 =
     ?s1\<lparr>messageQueue := messageQueue ?s1 @ replicate k m, sendCount := sendCount ?s1 + k\<rparr>"
    using Suc.prems by (intro Suc.IH) auto
  then show ?case by (simp add: s1 replicate_app_Cons_same)
qed

lemma fold_send_queued:
  "\<not> isConnected s \<Longrightarrow> length (messageQueue s) + length ms \<le> maxQueueSize s \<Longrightarrow>
   fold send ms s = s\<lparr>messageQueue := messageQueue s @ ms\<rparr>"
proof (induction ms arbitrary: s)
  case Nil
  then show ?case by simp
next
  case (Cons m ms)
  let ?s1 = "s\<lparr>messageQueue := messageQueue s @ [m]\<rparr>"
  have s1: "send m s = ?s1" using Cons.prems by (simp add: send_def)
  have "fold send ms ?s1 = ?s1\<lparr>messageQueue := messageQueue ?s1 @ ms\<rparr>"
    using Cons.prems by (intro Cons.IH) auto
  then show ?case by (simp add: s1)
qed

lemma alwaysThrows_all: "\<forall>n. alwaysThrows n"
  by (rule allI) (simp add: alwaysThrows_def)

lemma fullWhileOpen_eq:
  "fullWhileOpen = refusingOpen\<lparr>messageQueue := replicate 100 Ping, sendCount := 100\<rparr>"
proof -
  have "sendThrows refusingOpen = alwaysThrows"
    by (simp add: refusingOpen_def)
  then have t: "\<forall>n. sendThrows refusingOpen n"
    using alwaysThrows_all by simp
  have c: "isConnected refusingOpen" "ws refusingOpen \<noteq> None"
    "length (messageQueue refusingOpen) + 100 \<le> maxQueueSize refusingOpen"
    "messageQueue refusingOpen = []" "sendCount refusingOpen = 0"
    by (simp_all add: refusingOpen_def opened_def fresh_def connect_def LighterWS_new_def Let_def)
  from fold_send_refused [OF c(1) c(2) t c(3), of Ping] show ?thesis
    by (simp add: fullWhileOpen_def c)
qed

lemma fullWhileClosed_eq:
  "fullWhileClosed = fresh\<lparr>messageQueue := Auth ''a'' # replicate 99 Ping\<rparr>"
  unfolding fullWhileClosed_def
  by (subst fold_send_queued) (simp_all add: fresh_def LighterWS_new_def)

text \<open>Counting and ordering.\<close>

lemma count_list_distinct: "distinct xs \<Longrightarrow> x \<in> set xs \<Longrightarrow> count_list xs x = 1"
  by (induction xs) auto



lemma send_queue_bound:
  "0 < maxQueueSize s \<Longrightarrow> length (messageQueue s) \<le> maxQueueSize s \<Longrightarrow>
   length (messageQueue (send m s)) \<le> maxQueueSize s"
  by (auto simp: send_def)

lemma fold_send_queue_bound:
  "0 < maxQueueSize s \<Longrightarrow> length (messageQueue s) \<le> maxQueueSize s \<Longrightarrow>
   length (messageQueue (fold send ms s)) \<le> maxQueueSize s \<and>
   maxQueueSize (fold send ms s) = maxQueueSize s"
proof (induction ms arbitrary: s)
  case Nil
  then show ?case by simp
next
  case (Cons m ms)
  have "length (messageQueue (send m s)) \<le> maxQueueSize (send m s)"
    using Cons.prems by (simp add: send_queue_bound send_keeps)
  moreover have "0 < maxQueueSize (send m s)"
    using Cons.prems by (simp add: send_keeps)
  ultimately show ?case
    using Cons.IH [of "send m s"] by (simp add: send_keeps)
qed



text \<open>A flush against a transport that refuses every frame does not return.\<close>

lemma flush_never_returns:
  assumes "flushMessageQueue s = Some s'"
  shows "\<not> (isConnected s \<and> ws s \<noteq> None \<and> (\<forall>n. sendThrows s n) \<and> messageQueue s \<noteq> [] \<and>
            length (messageQueue s) \<le> maxQueueSize s)"
  using assms
proof (induction rule: flushMessageQueue.raw_induct [rotated 1, consumes 1])
  case (1 flush s s')
  show ?case
  proof
    assume h: "isConnected s \<and> ws s \<noteq> None \<and> (\<forall>n. sendThrows s n) \<and> messageQueue s \<noteq> [] \<and>
            length (messageQueue s) \<le> maxQueueSize s"
    then obtain m q where mq: "messageQueue s = m # q" by (cases "messageQueue s") auto
    let ?t = "s\<lparr>messageQueue := q @ [m], sendCount := Suc (sendCount s)\<rparr>"
    have "send m (s\<lparr>messageQueue := q\<rparr>) = ?t" using h mq by (simp add: send_def)
    with 1(2) mq have "flush ?t = Some s'" by simp
    from 1(1) [OF this] show False using h mq by simp
  qed
qed

lemma flushMessageQueue_refused_forever:
  assumes "isConnected s" and "ws s \<noteq> None" and "length (messageQueue s) \<le> maxQueueSize s"
    and "\<forall>n. sendThrows s n" and "messageQueue s \<noteq> []"
  shows "flushMessageQueue s = None"
proof (cases "flushMessageQueue s")
  case None
  then show ?thesis .
next
  case (Some s')
  from flush_never_returns [OF Some] assms show ?thesis by simp
qed





lemma handleMessage_auth_failed_literal:
  "handleMessage now (Message (Some ''auth_failed'') c e) s = s\<lparr>isAuthenticated := False\<rparr>"
  "handleMessage now (Message (Some ''auth_error'') c e) s = s\<lparr>isAuthenticated := False\<rparr>"
  by (simp_all add: handleMessage_def)

subsection \<open>Replay of the registry on open\<close>

text \<open>
  Claim C1, as the code has it. When the socket opens and the transport accepts every
  frame, the client puts on the wire, in this order: one \<open>auth\<close> frame if the client
  itself holds a token (the token is the client's, not a subscription's); one
  \<open>subscribe\<close> frame, without an auth field, for each key of the registry in the
  order of the registry, whatever the number of handlers of the key, and each key once
  since the keys of the registry are distinct; and then the frames of the outbound queue.
  The registry is left as it was and the queue is left empty.
\<close>

theorem onopen_replays_registry:
  assumes "ws s \<noteq> None" and "\<forall>n\<ge>sendCount s. \<not> sendThrows s n"
    and "distinct (map fst (subscriptions s))"
  shows "\<exists>s'. onopen now s = Some s' \<and>
           wire s' = wire s
             @ (if truthy (authToken s) then [Auth (the (authToken s))] else [])
             @ map (\<lambda>k. Subscribe k None) (map fst (subscriptions s))
             @ messageQueue s \<and>
           subscriptions s' = subscriptions s \<and> messageQueue s' = [] \<and>
           (\<forall>k \<in> fst ` set (subscriptions s).
              count_list (map (\<lambda>k. Subscribe k None) (map fst (subscriptions s)))
                (Subscribe k None) = 1)"
proof -
  let ?s1 = "s\<lparr>isConnected := True, reconnectAttempts := 0, lastPongTime := now\<rparr>"
  let ?a = "if truthy (authToken s) then [Auth (the (authToken s))] else []"
  let ?s2 = "?s1\<lparr>wire := wire s @ ?a, sendCount := sendCount s + length ?a\<rparr>"
  let ?r = "map (\<lambda>k. Subscribe k None) (map fst (subscriptions s))"
  let ?s3 = "?s2\<lparr>wire := wire ?s2 @ ?r, sendCount := sendCount ?s2 + length (subscriptions s)\<rparr>"
  have a: "(if truthy (authToken ?s1) then send (Auth (the (authToken ?s1))) ?s1 else ?s1) = ?s2"
    using assms by (simp add: send_accepted)
  have "resubscribeEntries (subscriptions s) ?s2 = ?s3"
    using assms by (subst resubscribeEntries_accepted) auto
  then have r: "(if length (subscriptions ?s2) > 0 then resubscribeAll ?s2 else ?s2) = ?s3"
    by (cases "subscriptions s") (simp_all add: resubscribeAll_def)
  have f: "flushMessageQueue ?s3 =
      Some (?s3\<lparr>messageQueue := [], wire := wire ?s3 @ messageQueue s,
                sendCount := sendCount ?s3 + length (messageQueue s)\<rparr>)"
    using assms by (intro flushMessageQueue_accepted) auto
  have once: "\<forall>k \<in> fst ` set (subscriptions s). count_list ?r (Subscribe k None) = 1"
  proof
    fix k assume "k \<in> fst ` set (subscriptions s)"
    then have c: "count_list (map fst (subscriptions s)) k = 1"
      using assms(3) by (simp add: count_list_distinct)
    have inj: "inj (\<lambda>k. Subscribe k None)" by (simp add: inj_on_def)
    show "count_list ?r (Subscribe k None) = 1"
      unfolding count_list_map_conv [OF inj] by (fact c)
  qed
  show ?thesis
    unfolding onopen_def Let_def a r f using once
    by (simp add: startHeartbeat_def stopHeartbeat_def)
qed

text \<open>The theorem at a client with a token, two keys and three handlers.\<close>

theorem onopen_replays_registry_witness:
  "ws twoKeys \<noteq> None \<and> (\<forall>n. \<not> sendThrows twoKeys n) \<and>
   distinct (map fst (subscriptions twoKeys)) \<and>
   (\<exists>s'. onopen 5 twoKeys = Some s' \<and>
      wire s' = [Auth ''tok'', Subscribe ''order_book/1'' None, Subscribe ''trade/2'' None,
                 Subscribe ''order_book/1'' None, Subscribe ''order_book/1'' None,
                 Subscribe ''trade/2'' None] \<and>
      subscriptions s' = [(''order_book/1'', [7, 8]), (''trade/2'', [9])])"
  using onopen_replays_registry [of twoKeys 5]
  by (simp add: twoKeys_def withToken_def neverThrows_def eval_defs)

text \<open>
  The claim as written fails. After one \<open>subscribe\<close> on a client that is not yet
  connected, the first open sends two \<open>subscribe\<close> frames for the one key, the replayed
  one and the queued one. And a subscription made with an auth token is replayed on the
  next open by a \<open>subscribe\<close> frame without the token, with no \<open>auth\<close> frame before it.
\<close>

theorem onopen_duplicate_subscribe:
  "map fst (subscriptions queuedBeforeOpen) = [''order_book/1''] \<and>
   map_option wire (onopen 5 queuedBeforeOpen) =
     Some [Subscribe ''order_book/1'' None, Subscribe ''order_book/1'' None] \<and>
   map_option wire authReplay =
     Some [Subscribe ''account_all_orders/42'' (Some ''tok''),
           Subscribe ''account_all_orders/42'' None]"
  by (simp add: queuedBeforeOpen_def authReplay_def fresh_def neverThrows_def onclose_def
      attemptReconnect_def backoffDelay_def reconnectTimerFire_def zero_enat_def eval_defs)

subsection \<open>Subscribing to a key that is already registered\<close>

text \<open>
  Claim C2, as the code has it. A \<open>subscribe\<close> for a key that the registry already holds
  appends the handler to the callback list of that key and leaves the keys of the
  registry as they are; and it passes a \<open>subscribe\<close> frame to \<open>send\<close> as the first
  call for the key did: on an open client whose transport accepts it, the frame goes on
  the wire again.
\<close>

theorem subscribe_existing_key:
  assumes "mid \<noteq> Undefined" and "mid \<noteq> Null" and "mid \<noteq> Str []"
    and "map_of (subscriptions s) (channel @ ''/'' @ toString mid) = Some cbs"
    and "isConnected s" and "ws s \<noteq> None" and "\<not> sendThrows s (sendCount s)"
  shows "map_of (subscriptions (subscribe channel mid cb auth s)) (channel @ ''/'' @ toString mid)
           = Some (cbs @ [cb]) \<and>
         map fst (subscriptions (subscribe channel mid cb auth s)) = map fst (subscriptions s) \<and>
         wire (subscribe channel mid cb auth s) =
           wire s @ [Subscribe (channel @ ''/'' @ toString mid) (if truthy auth then auth else None)]"
proof -
  let ?k = "channel @ ''/'' @ toString mid"
  have "?k \<in> set (map fst (subscriptions s))"
    using assms(4) by (metis map_of_eq_None_iff option.distinct(1) set_map)
  then have keys: "map fst (AList.update ?k (cbs @ [cb]) (subscriptions s)) = map fst (subscriptions s)"
    by (simp add: update_keys)
  show ?thesis
    using assms keys by (simp add: subscribe_def send_accepted send_keeps update_conv' Let_def)
qed

theorem subscribe_existing_key_witness:
  "Str ''1'' \<noteq> Undefined \<and> Str ''1'' \<noteq> Null \<and> Str ''1'' \<noteq> Str [] \<and>
   map_of (subscriptions subscribedOnce) (''order_book'' @ ''/'' @ toString (Str ''1'')) = Some [1] \<and>
   isConnected subscribedOnce \<and> ws subscribedOnce \<noteq> None \<and>
   \<not> sendThrows subscribedOnce (sendCount subscribedOnce) \<and>
   map_of (subscriptions (subscribe ''order_book'' (Str ''1'') 2 (Some ''tok'') subscribedOnce))
     ''order_book/1'' = Some [1, 2] \<and>
   wire (subscribe ''order_book'' (Str ''1'') 2 (Some ''tok'') subscribedOnce) =
     [Subscribe ''order_book/1'' None, Subscribe ''order_book/1'' (Some ''tok'')]"
  using subscribe_existing_key [of "Str ''1''" subscribedOnce "''order_book''" "[1]" 2 "Some ''tok''"]
  by (simp add: subscribedOnce_def opened_def fresh_def neverThrows_def eval_defs)

text \<open>
  The claim as written fails: the key is in the registry, and the second \<open>subscribe\<close>
  for it puts one more \<open>subscribe\<close> frame on the wire.
\<close>

theorem subscribe_existing_key_resends:
  "map_of (subscriptions subscribedOnce) ''order_book/1'' = Some [1] \<and>
   wire (subscribe ''order_book'' (Str ''1'') 2 None subscribedOnce) =
     wire subscribedOnce @ [Subscribe ''order_book/1'' None]"
  by (simp add: subscribedOnce_def opened_def fresh_def neverThrows_def eval_defs)

subsection \<open>The bound of the outbound queue\<close>

text \<open>
  Claim C3, as the code has it. With a limit of at least one frame (the constructor sets
  100), a queue within its limit stays within it over every sequence of \<open>send\<close> calls.
  A frame sent while the client is not connected is always kept at the tail of the queue,
  and when the queue is full the frame at its head is the one given up. A frame whose
  transport send throws while the client is connected is queued only if the queue is
  below its limit; with a full queue the queue is left as it is and the frame is
  neither sent nor queued.
\<close>

theorem send_queue_capacity:
  assumes "0 < maxQueueSize s" and "length (messageQueue s) \<le> maxQueueSize s"
  shows "length (messageQueue (fold send ms s)) \<le> maxQueueSize s \<and>
         (\<not> isConnected s \<and> length (messageQueue s) = maxQueueSize s \<longrightarrow>
            messageQueue (send m s) = tl (messageQueue s) @ [m]) \<and>
         (\<not> isConnected s \<and> length (messageQueue s) < maxQueueSize s \<longrightarrow>
            messageQueue (send m s) = messageQueue s @ [m]) \<and>
         (isConnected s \<and> ws s \<noteq> None \<and> sendThrows s (sendCount s) \<longrightarrow>
            messageQueue (send m s) =
              (if length (messageQueue s) < maxQueueSize s then messageQueue s @ [m]
               else messageQueue s) \<and>
            wire (send m s) = wire s)"
  using fold_send_queue_bound [OF assms, of ms] by (simp add: send_def)

theorem send_queue_capacity_witness:
  "0 < maxQueueSize fullWhileClosed \<and>
   length (messageQueue fullWhileClosed) \<le> maxQueueSize fullWhileClosed \<and>
   \<not> isConnected fullWhileClosed \<and>
   length (messageQueue fullWhileClosed) = maxQueueSize fullWhileClosed \<and>
   hd (messageQueue fullWhileClosed) = Auth ''a'' \<and>
   length (messageQueue (fold send [Ping, Pong] fullWhileClosed)) \<le> 100 \<and>
   messageQueue (send Pong fullWhileClosed) = replicate 99 Ping @ [Pong]"
  using send_queue_capacity [of fullWhileClosed "[Ping, Pong]" Pong]
  by (simp add: fullWhileClosed_eq fresh_def LighterWS_new_def)

text \<open>
  The claim as written fails: on an open client whose queue is full, a frame that the
  transport refuses is neither on the wire nor in the queue afterwards, and the queue
  still holds what it held. The newest frame is the one dropped.
\<close>

theorem send_full_queue_drops_newest:
  "isConnected fullWhileOpen \<and>
   length (messageQueue fullWhileOpen) = maxQueueSize fullWhileOpen \<and>
   Pong \<notin> set (messageQueue (send Pong fullWhileOpen)) \<and>
   Pong \<notin> set (wire (send Pong fullWhileOpen)) \<and>
   messageQueue (send Pong fullWhileOpen) = messageQueue fullWhileOpen"
  by (simp add: fullWhileOpen_eq refusingOpen_def opened_def fresh_def alwaysThrows_def
      neverThrows_def eval_defs)

subsection \<open>Reconnect backoff\<close>



subsection \<open>Heartbeat\<close>



subsection \<open>Flushing the queue\<close>

text \<open>
  Claim C6, as the code has it. On a connected client whose queue is within its limit:
  if the transport accepts every frame, the flush returns, the queued frames go on the
  wire in the order of the queue and the queue is left empty. If the send of the frame at
  the head throws, the flush is not given up: that frame is put back at the tail of the
  queue and the loop goes on with the frames that were behind it.
\<close>

theorem flushMessageQueue_order:
  assumes "isConnected s" and "ws s \<noteq> None" and "length (messageQueue s) \<le> maxQueueSize s"
  shows "((\<forall>n\<ge>sendCount s. \<not> sendThrows s n) \<longrightarrow>
           flushMessageQueue s =
             Some (s\<lparr>messageQueue := [], wire := wire s @ messageQueue s,
                     sendCount := sendCount s + length (messageQueue s)\<rparr>)) \<and>
         (\<forall>m q. messageQueue s = m # q \<and> sendThrows s (sendCount s) \<longrightarrow>
            flushMessageQueue s =
              flushMessageQueue (s\<lparr>messageQueue := q @ [m], sendCount := Suc (sendCount s)\<rparr>))"
proof -
  have ok: "(\<forall>n\<ge>sendCount s. \<not> sendThrows s n) \<longrightarrow>
           flushMessageQueue s =
             Some (s\<lparr>messageQueue := [], wire := wire s @ messageQueue s,
                     sendCount := sendCount s + length (messageQueue s)\<rparr>)"
    using assms by (simp add: flushMessageQueue_accepted)
  have bad: "\<forall>m q. messageQueue s = m # q \<and> sendThrows s (sendCount s) \<longrightarrow>
            flushMessageQueue s =
              flushMessageQueue (s\<lparr>messageQueue := q @ [m], sendCount := Suc (sendCount s)\<rparr>)"
  proof (intro allI impI)
    fix m q assume h: "messageQueue s = m # q \<and> sendThrows s (sendCount s)"
    then have "send m (s\<lparr>messageQueue := q\<rparr>) =
        s\<lparr>messageQueue := q @ [m], sendCount := Suc (sendCount s)\<rparr>"
      using assms by (simp add: send_def)
    then show "flushMessageQueue s =
        flushMessageQueue (s\<lparr>messageQueue := q @ [m], sendCount := Suc (sendCount s)\<rparr>)"
      using h by (simp add: flush_Cons)
  qed
  show ?thesis using ok bad by blast
qed

theorem flushMessageQueue_order_witness:
  "isConnected refusedOnce \<and> ws refusedOnce \<noteq> None \<and>
   length (messageQueue refusedOnce) \<le> maxQueueSize refusedOnce \<and>
   messageQueue refusedOnce = [Unsubscribe ''trade/2'', Ping] \<and>
   sendThrows refusedOnce (sendCount refusedOnce) \<and>
   flushMessageQueue refusedOnce =
     flushMessageQueue
       (refusedOnce\<lparr>messageQueue := [Ping] @ [Unsubscribe ''trade/2''],
          sendCount := Suc (sendCount refusedOnce)\<rparr>) \<and>
   map_option wire (flushMessageQueue refusedOnce) = Some [Ping, Unsubscribe ''trade/2'']"
proof -
  have pre: "isConnected refusedOnce" "ws refusedOnce \<noteq> None"
    "length (messageQueue refusedOnce) \<le> maxQueueSize refusedOnce"
    "messageQueue refusedOnce = [Unsubscribe ''trade/2'', Ping]"
    "sendThrows refusedOnce (sendCount refusedOnce)"
    by (simp_all add: refusedOnce_def twoQueued_def throwsFirst_def eval_defs)
  from flushMessageQueue_order [OF pre(1) pre(2) pre(3)]
  have "\<forall>m q. messageQueue refusedOnce = m # q \<and> sendThrows refusedOnce (sendCount refusedOnce) \<longrightarrow>
      flushMessageQueue refusedOnce =
        flushMessageQueue
          (refusedOnce\<lparr>messageQueue := q @ [m], sendCount := Suc (sendCount refusedOnce)\<rparr>)"
    by blast
  with pre(4) pre(5) have again: "flushMessageQueue refusedOnce =
     flushMessageQueue
       (refusedOnce\<lparr>messageQueue := [Ping] @ [Unsubscribe ''trade/2''],
          sendCount := Suc (sendCount refusedOnce)\<rparr>)"
    by blast
  have sent: "map_option wire (flushMessageQueue refusedOnce) = Some [Ping, Unsubscribe ''trade/2'']"
    by (simp add: refusedOnce_def twoQueued_def throwsFirst_def eval_defs)
  show ?thesis using pre again sent by blast
qed

text \<open>
  The claim as written fails: two frames are queued and the transport refuses the first
  send of the flush. The flush goes on, the second frame is sent before the first, and
  nothing is left in the queue.
\<close>

theorem flushMessageQueue_reorders:
  "messageQueue twoQueued = [Unsubscribe ''trade/2'', Ping] \<and>
   map_option wire (onopen 5 twoQueued) = Some [Ping, Unsubscribe ''trade/2''] \<and>
   map_option messageQueue (onopen 5 twoQueued) = Some []"
  by (simp add: twoQueued_def throwsFirst_def eval_defs)

subsection \<open>Colon and slash in channel names\<close>



subsection \<open>Authentication failure\<close>

text \<open>
  Claim C8, as the code has it. On an \<open>auth_failed\<close> or \<open>auth_error\<close> message the client
  sets its own flag \<open>isAuthenticated\<close> to false and does nothing else: the refresh
  callback is not called and the token is kept, nothing is sent or queued, no handler
  is called, the registry is untouched, no reconnect is scheduled and no socket opened.
\<close>

theorem handleMessage_auth_failed:
  assumes "t = ''auth_failed'' \<or> t = ''auth_error''"
  shows "handleMessage now (Message (Some t) c e) s = s\<lparr>isAuthenticated := False\<rparr> \<and>
         refreshCalls (handleMessage now (Message (Some t) c e) s) = refreshCalls s \<and>
         authToken (handleMessage now (Message (Some t) c e) s) = authToken s \<and>
         wire (handleMessage now (Message (Some t) c e) s) = wire s \<and>
         messageQueue (handleMessage now (Message (Some t) c e) s) = messageQueue s \<and>
         subscriptions (handleMessage now (Message (Some t) c e) s) = subscriptions s \<and>
         delivered (handleMessage now (Message (Some t) c e) s) = delivered s \<and>
         pendingReconnects (handleMessage now (Message (Some t) c e) s) = pendingReconnects s \<and>
         socketsOpened (handleMessage now (Message (Some t) c e) s) = socketsOpened s"
  using assms by (elim disjE) (simp_all add: handleMessage_auth_failed_literal)

theorem handleMessage_auth_failed_witness:
  "(''auth_failed'' = ''auth_failed'' \<or> ''auth_failed'' = ''auth_error'') \<and>
   handleMessage 9 (Message (Some ''auth_failed'') None False) subscribedOnce =
     subscribedOnce\<lparr>isAuthenticated := False\<rparr> \<and>
   wire (handleMessage 9 (Message (Some ''auth_failed'') None False) subscribedOnce) =
     [Subscribe ''order_book/1'' None]"
  using handleMessage_auth_failed [of "''auth_failed''" 9 None False subscribedOnce]
  by (simp add: subscribedOnce_def opened_def fresh_def neverThrows_def eval_defs)

text \<open>
  The claim as written fails: a client with a token and a refresh callback connects,
  opens and receives \<open>auth_failed\<close>. The refresh callback has not been called, and the
  only frame sent is the \<open>auth\<close> frame of the open.
\<close>

theorem auth_failed_no_refresh:
  "authRefreshCallback withToken \<and>
   map_option refreshCalls
     (run [EvConnect Rejected, EvOpen 0, EvMessage 1 (Message (Some ''auth_failed'') None False)]
        withToken) = Some 0 \<and>
   map_option wire
     (run [EvConnect Rejected, EvOpen 0, EvMessage 1 (Message (Some ''auth_failed'') None False)]
        withToken) = Some [Auth ''tok'']"
  by (simp add: withToken_def neverThrows_def handleMessage_def eval_defs)

subsection \<open>After disconnect\<close>




subsection \<open>Subscribing without a market\<close>

text \<open>
  Claim C10. A \<open>subscribe\<close> whose market is undefined, null or the empty string returns
  the client as it was: the registry, the queue and the wire are unchanged and the
  callback is not stored.
\<close>

theorem subscribe_invalid_marketId:
  "subscribe channel Undefined cb auth s = s \<and>
   subscribe channel Null cb auth s = s \<and>
   subscribe channel (Str []) cb auth s = s"
  by (simp add: subscribe_def)

theorem subscribe_invalid_marketId_witness:
  "subscriptions (subscribe ''order_book'' Undefined 1 None opened) = [] \<and>
   wire (subscribe ''order_book'' Null 1 None opened) = [] \<and>
   messageQueue (subscribe ''order_book'' (Str []) 1 (Some ''tok'') fresh) = [] \<and>
   subscriptions (subscribe ''order_book'' (Str []) 1 (Some ''tok'') fresh) = []"
  using subscribe_invalid_marketId [of "''order_book''" 1 None opened]
    subscribe_invalid_marketId [of "''order_book''" 1 "Some ''tok''" fresh]
  by (simp add: opened_def fresh_def connect_def LighterWS_new_def Let_def)

end
